theory Spec2Isabelle
  imports Complex_Main
begin

section \<open>snscrape.base: the data of the module\<close>

text \<open>
  The module \<^verbatim>\<open>snscrape/base.py\<close> defines the abstract \<^verbatim>\<open>Scraper\<close> class. Its two
  pieces of behaviour are the retrying request method \<^verbatim>\<open>_request\<close> and the cached
  \<^verbatim>\<open>entity\<close> property. Isabelle identifiers cannot start with an underscore, so
  \<^verbatim>\<open>_request\<close>, \<^verbatim>\<open>_get\<close>, \<^verbatim>\<open>_post\<close> and \<^verbatim>\<open>_get_entity\<close> appear
  as \<open>request\<close>, \<open>get\<close>, \<open>post\<close> and \<open>get_entity\<close>.
\<close>

subsection \<open>Python values that the method only passes on\<close>

text \<open>
  \<^verbatim>\<open>params\<close>, \<^verbatim>\<open>data\<close> and \<^verbatim>\<open>headers\<close> are arbitrary Python objects (a dict, a
  string, \<^verbatim>\<open>None\<close>). \<^verbatim>\<open>_request\<close> observes them in two ways only: through
  \<^verbatim>\<open>repr\<close> (the \<^verbatim>\<open>!r\<close> conversions of the log lines) and through truthiness
  (\<^verbatim>\<open>if data:\<close>). A value is therefore represented by these two observations.
\<close>

record pyobj =
  py_repr :: string
  py_bool :: bool

definition py_None :: pyobj where
  "py_None = \<lparr>py_repr = ''None'', py_bool = False\<rparr>"

text \<open>Decimal rendering of Python integers, as \<^verbatim>\<open>str\<close> and f-strings produce it.\<close>

definition digit_char :: "nat \<Rightarrow> char" where
  "digit_char d = ''0123456789'' ! d"

fun str_nat :: "nat \<Rightarrow> string" where
  "str_nat n = (if n < 10 then [digit_char n] else str_nat (n div 10) @ [digit_char (n mod 10)])"

declare str_nat.simps [simp del]

definition str_int :: "int \<Rightarrow> string" where
  "str_int i = (if i < 0 then CHR ''-'' # str_nat (nat (- i)) else str_nat (nat i))"

text \<open>
  The format specification \<^verbatim>\<open>:.0f\<close>: no decimals, ties rounded to the even neighbour.
  Only non-negative values are ever formatted here (a sleep time).
\<close>

definition format_0f :: "real \<Rightarrow> string" where
  "format_0f x =
     (let f = \<lfloor>x\<rfloor>; d = x - of_int f
      in str_int (if d < 1 / 2 then f else if 1 / 2 < d then f + 1
                  else if even f then f else f + 1))"

subsection \<open>Exceptions, log levels, observable effects\<close>

datatype error =
    ScraperException string
  | RuntimeError string
  | UnboundLocalError string
  | OverflowError string

text \<open>
  An instance of \<^verbatim>\<open>requests.exceptions.RequestException\<close>, the transport error that
  \<^verbatim>\<open>Session.send\<close> raises; the method reads only its \<^verbatim>\<open>repr\<close>.
\<close>

datatype request_exception = RequestException (exc_repr: string)

datatype level = DEBUG | INFO | WARNING | ERROR | FATAL

text \<open>\<^verbatim>\<open>requests.Request(method, url, params = params, data = data, headers = headers)\<close>\<close>

record http_request =
  request_method :: string
  request_url :: string
  request_params :: pyobj
  request_data :: pyobj
  request_headers :: pyobj

text \<open>
  The \<^verbatim>\<open>PreparedRequest\<close> that \<^verbatim>\<open>Session.prepare_request\<close> returns: the resolved
  URL (read by the method as \<^verbatim>\<open>req.url\<close>) and the header lines, which hold the cookies
  of the session at the time of preparation.
\<close>

record prepared_request =
  prepared_url :: string
  prepared_headers :: "(string \<times> string) list"

text \<open>
  What a run does to the outside, in program order: calls of \<^verbatim>\<open>prepare_request\<close>
  (with the request prepared and the result), calls of \<^verbatim>\<open>send\<close>, log records, and
  calls of \<^verbatim>\<open>time.sleep\<close>. The sleep time is a Python float whose value is a power
  of two, which a float holds exactly; it appears here as that real number.
\<close>

datatype event =
    Prepare http_request prepared_request
  | Send prepared_request
  | Log level string
  | Sleep real

text \<open>
  How a block of statements ends: it falls through (\<open>Next\<close>), or leaves by
  \<^verbatim>\<open>break\<close>, \<^verbatim>\<open>return\<close> or \<^verbatim>\<open>raise\<close>.
\<close>

datatype 'r ctl = Next | Break | Return 'r | Raise error

subsection \<open>The transport library and the Scraper instance\<close>

text \<open>
  The \<^verbatim>\<open>requests\<close> library is not part of the repository. Its session object is a
  state of type \<open>'s\<close> (cookies, and whatever of the network the session can see), and
  the two methods that \<^verbatim>\<open>_request\<close> calls are parameters: \<open>prepare_request\<close> reads the
  state, \<open>send\<close> returns a response of type \<open>'r\<close> or raises a
  \<open>RequestException\<close>, and changes the state.
\<close>

record ('s, 'r) requests_lib =
  prepare_request :: "'s \<Rightarrow> http_request \<Rightarrow> prepared_request"
  send :: "'s \<Rightarrow> prepared_request \<Rightarrow> bool \<Rightarrow> int \<Rightarrow> (request_exception + 'r) \<times> 's"

text \<open>
  A Scraper instance: the two attributes set by \<^verbatim>\<open>__init__\<close>, and the slot of the
  instance dictionary in which \<^verbatim>\<open>functools.cached_property\<close> stores the entity
  (\<open>None\<close>: no entry; \<open>Some v\<close>: the entry \<open>v\<close>, where \<open>v = None\<close> is Python's
  \<^verbatim>\<open>None\<close>).
\<close>

record ('s, 'e) scraper =
  retries :: int
  session :: 's
  entity_slot :: "'e option option"

text \<open>
  \<^verbatim>\<open>__init__(self, retries = 3)\<close> stores the retry count as it is given (any Python
  integer, a negative one too) and creates a session; \<open>new_session\<close> is the state of a
  fresh \<^verbatim>\<open>requests.Session()\<close>.
\<close>

definition default_retries :: int where
  "default_retries = 3"

definition init :: "'s \<Rightarrow> int \<Rightarrow> ('s, 'e) scraper" where
  "init new_session n = \<lparr>retries = n, session = new_session, entity_slot = None\<rparr>"

text \<open>
  The arguments of one call of \<^verbatim>\<open>_request\<close>, under the names of its parameters
  (\<open>http_method\<close> is the parameter \<^verbatim>\<open>method\<close>, a word that Isabelle reserves).
\<close>

record 'r request_args =
  http_method :: string
  url :: string
  params :: pyobj
  data :: pyobj
  headers :: pyobj
  timeout :: int
  responseOkCallback :: "('r \<Rightarrow> bool \<times> string option) option"
  allowRedirects :: bool

definition default_args :: "string \<Rightarrow> string \<Rightarrow> 'r request_args" where
  "default_args m u =
     \<lparr>http_method = m, url = u, params = py_None, data = py_None, headers = py_None,
      timeout = 10, responseOkCallback = None, allowRedirects = True\<rparr>"

definition Request :: "'r request_args \<Rightarrow> http_request" where
  "Request a =
     \<lparr>request_method = http_method a, request_url = url a, request_params = params a,
      request_data = data a, request_headers = headers a\<rparr>"

section \<open>The retry loop of \<open>_request\<close>\<close>

text \<open>
  The local state of a call: the instance (whose session the sends change) and the
  local variable \<^verbatim>\<open>req\<close>, which is unbound until the loop body has run once.
\<close>

record ('s, 'e) frame =
  self :: "('s, 'e) scraper"
  req :: "prepared_request option"

text \<open>Lines 90-95 and 108-113: the suffix and the level of the log record of a failure.\<close>

definition retrying :: "int \<Rightarrow> nat \<Rightarrow> string" where
  "retrying n attempt = (if int attempt < n then '', retrying'' else '''')"

definition failure_level :: "int \<Rightarrow> nat \<Rightarrow> level" where
  "failure_level n attempt = (if int attempt < n then WARNING else ERROR)"

text \<open>Line 102: \<^verbatim>\<open>msg = f': {msg}' if msg else ''\<close>.\<close>

definition msg_suffix :: "string option \<Rightarrow> string" where
  "msg_suffix msg = (case msg of None \<Rightarrow> '''' | Some m \<Rightarrow> if m = '''' then '''' else '': '' @ m)"

text \<open>
  Line 116, \<^verbatim>\<open>1.0 * 2**attempt\<close>: the power is an exact Python integer, and the product
  with \<^verbatim>\<open>1.0\<close> first converts it to a float. The conversion raises OverflowError
  (\<^verbatim>\<open>int too large to convert to float\<close>) from \<^verbatim>\<open>2**1024\<close> on; below that the float is
  the power of two itself, and so is its product with \<^verbatim>\<open>1.0\<close>.
\<close>

definition float_max_exp :: nat where
  "float_max_exp = 1024"

definition float_of_power :: "nat \<Rightarrow> error + real" where
  "float_of_power k =
     (if k < float_max_exp then Inr (2 ^ k)
      else Inl (OverflowError ''int too large to convert to float''))"

text \<open>
  Lines 115-118: the backoff at the end of an iteration that did not return. When the
  sleep time cannot be computed, the exception leaves the iteration before anything is
  logged or slept.
\<close>

definition backoff :: "int \<Rightarrow> nat \<Rightarrow> 'r ctl \<times> event list" where
  "backoff n attempt =
     (if int attempt < n
      then (case float_of_power attempt of
              Inl e \<Rightarrow> (Raise e, [])
            | Inr x \<Rightarrow>
                (let sleepTime = 1 * x
                 in (Next, [Log INFO (''Waiting '' @ format_0f sleepTime @ '' seconds''),
                            Sleep sleepTime])))
      else (Next, []))"

text \<open>Lines 82-118: one iteration of the loop.\<close>

definition attempt_body ::
  "('s, 'r) requests_lib \<Rightarrow> 'r request_args \<Rightarrow> nat \<Rightarrow> ('s, 'e) frame
     \<Rightarrow> 'r ctl \<times> ('s, 'e) frame \<times> event list" where
  "attempt_body lib a attempt st =
     (let n = retries (self st);
          rq = prepare_request lib (session (self st)) (Request a);
          ev1 = [Prepare (Request a) rq,
                 Log INFO (''Retrieving '' @ prepared_url rq),
                 Log DEBUG (''... with headers: '' @ py_repr (headers a))]
                @ (if py_bool (data a) then [Log DEBUG (''... with data: '' @ py_repr (data a))]
                   else []);
          (res, s') = send lib (session (self st)) rq (allowRedirects a) (timeout a);
          st' = st\<lparr>self := (self st)\<lparr>session := s'\<rparr>, req := Some rq\<rparr>;
          ev2 = ev1 @ [Send rq]
      in case res of
           Inl exc \<Rightarrow>
             (case backoff n attempt of
                (c, ev3) \<Rightarrow>
                  (c, st',
                   ev2 @ [Log (failure_level n attempt)
                            (''Error retrieving '' @ prepared_url rq @ '': '' @ exc_repr exc
                               @ retrying n attempt)]
                       @ ev3))
         | Inr r \<Rightarrow>
             (let (success, msg) =
                    (case responseOkCallback a of Some f \<Rightarrow> f r | None \<Rightarrow> (True, None));
                  msg = msg_suffix msg
              in if success
                 then (Return r, st',
                       ev2 @ [Log DEBUG (prepared_url rq @ '' retrieved successfully'' @ msg)])
                 else (case backoff n attempt of
                         (c, ev3) \<Rightarrow>
                           (c, st',
                            ev2 @ [Log (failure_level n attempt)
                                     (''Error retrieving '' @ prepared_url rq @ msg
                                        @ retrying n attempt)]
                                @ ev3))))"

text \<open>
  A \<^verbatim>\<open>for\<close> statement over a list: the body runs for each element in turn until one
  iteration leaves the loop. The result \<open>Next\<close> says that the list was used up.
\<close>

fun for_loop ::
  "('i \<Rightarrow> 'f \<Rightarrow> 'r ctl \<times> 'f \<times> event list) \<Rightarrow> 'i list \<Rightarrow> 'f \<Rightarrow> 'r ctl \<times> 'f \<times> event list" where
  "for_loop body [] st = (Next, st, [])"
| "for_loop body (i # rest) st =
     (case body i st of
        (Next, st', ev) \<Rightarrow>
          (case for_loop body rest st' of (c, st'', ev') \<Rightarrow> (c, st'', ev @ ev'))
      | (c, st', ev) \<Rightarrow> (c, st', ev))"

text \<open>\<^verbatim>\<open>range(n)\<close> for a Python integer \<open>n\<close>: empty when \<open>n \<le> 0\<close>.\<close>

definition py_range :: "int \<Rightarrow> nat list" where
  "py_range n = [0 ..< nat n]"

text \<open>Lines 120-122: the \<^verbatim>\<open>else\<close> clause of the loop.\<close>

definition else_clause :: "('s, 'e) frame \<Rightarrow> 'r ctl \<times> ('s, 'e) frame \<times> event list" where
  "else_clause st =
     (case req st of
        None \<Rightarrow> (Raise (UnboundLocalError ''req''), st, [])
      | Some rq \<Rightarrow>
          (let msg = str_int (retries (self st) + 1) @ '' requests to '' @ prepared_url rq
                       @ '' failed, giving up.''
           in (Raise (ScraperException msg), st, [Log FATAL msg])))"

text \<open>Line 123: the statement after the loop.\<close>

definition trailing_raise :: "('s, 'e) frame \<Rightarrow> 'r ctl \<times> ('s, 'e) frame \<times> event list" where
  "trailing_raise st = (Raise (RuntimeError ''Reached unreachable code''), st, [])"

text \<open>
  \<^verbatim>\<open>for ... else\<close> followed by the trailing statement. The \<^verbatim>\<open>else\<close> clause runs when the
  loop used up its range; the trailing statement runs after a \<^verbatim>\<open>break\<close>, or when the
  \<^verbatim>\<open>else\<close> clause falls through.
\<close>

definition request_frame ::
  "('s, 'r) requests_lib \<Rightarrow> 'r request_args \<Rightarrow> ('s, 'e) frame
     \<Rightarrow> 'r ctl \<times> ('s, 'e) frame \<times> event list" where
  "request_frame lib a st0 =
     (case for_loop (attempt_body lib a) (py_range (retries (self st0) + 1)) st0 of
        (Next, st, ev) \<Rightarrow>
          (case else_clause st of
             (Next, st', ev') \<Rightarrow>
               (case trailing_raise st' of (c, st'', ev'') \<Rightarrow> (c, st'', ev @ ev' @ ev''))
           | (c, st', ev') \<Rightarrow> (c, st', ev @ ev'))
      | (Break, st, ev) \<Rightarrow>
          (case trailing_raise st of (c, st', ev') \<Rightarrow> (c, st', ev @ ev'))
      | (c, st, ev) \<Rightarrow> (c, st, ev))"

text \<open>
  \<^verbatim>\<open>Scraper._request\<close>: the outcome (a returned response or a raised exception), the
  instance afterwards, and the effects in program order.
\<close>

definition request ::
  "('s, 'r) requests_lib \<Rightarrow> ('s, 'e) scraper \<Rightarrow> 'r request_args
     \<Rightarrow> 'r ctl \<times> ('s, 'e) scraper \<times> event list" where
  "request lib slf a =
     (case request_frame lib a \<lparr>self = slf, req = None\<rparr> of (c, st, ev) \<Rightarrow> (c, self st, ev))"

definition get ::
  "('s, 'r) requests_lib \<Rightarrow> ('s, 'e) scraper \<Rightarrow> 'r request_args
     \<Rightarrow> 'r ctl \<times> ('s, 'e) scraper \<times> event list" where
  "get lib slf a = request lib slf (a\<lparr>http_method := ''GET''\<rparr>)"

definition post ::
  "('s, 'r) requests_lib \<Rightarrow> ('s, 'e) scraper \<Rightarrow> 'r request_args
     \<Rightarrow> 'r ctl \<times> ('s, 'e) scraper \<times> event list" where
  "post lib slf a = request lib slf (a\<lparr>http_method := ''POST''\<rparr>)"

section \<open>The cached \<open>entity\<close> property\<close>

text \<open>
  \<^verbatim>\<open>_get_entity\<close> is the method that subclasses override. It may perform requests, so
  it reads the instance and returns, next to its result, the session as it left it; it
  may raise. The version of the base class returns \<^verbatim>\<open>None\<close>.
\<close>

type_synonym ('s, 'e) resolver = "('s, 'e) scraper \<Rightarrow> (error + 'e option) \<times> 's"

definition get_entity :: "('s, 'e) resolver" where
  "get_entity slf = (Inr None, session slf)"

text \<open>
  \<^verbatim>\<open>@functools.cached_property def entity(self): return self._get_entity()\<close>.
  A read looks for the entry in the instance dictionary; without one it calls the
  method and stores what it returns. An exception of the method leaves the dictionary
  as it was. The third component counts the calls of \<^verbatim>\<open>_get_entity\<close> made by the read.
\<close>

definition entity ::
  "('s, 'e) resolver \<Rightarrow> ('s, 'e) scraper \<Rightarrow> (error + 'e option) \<times> ('s, 'e) scraper \<times> nat" where
  "entity resolve slf =
     (case entity_slot slf of
        Some v \<Rightarrow> (Inr v, slf, 0)
      | None \<Rightarrow>
          (case resolve slf of
             (Inl e, s') \<Rightarrow> (Inl e, slf\<lparr>session := s'\<rparr>, 1)
           | (Inr v, s') \<Rightarrow> (Inr v, slf\<lparr>session := s', entity_slot := Some v\<rparr>, 1)))"

text \<open>
  A caller that reads the property a number of times in a row, keeping what each read
  gave (a value or the exception), and the total number of calls of \<^verbatim>\<open>_get_entity\<close>.
\<close>

fun read_entity ::
  "('s, 'e) resolver \<Rightarrow> nat \<Rightarrow> ('s, 'e) scraper
     \<Rightarrow> (error + 'e option) list \<times> ('s, 'e) scraper \<times> nat" where
  "read_entity resolve 0 slf = ([], slf, 0)"
| "read_entity resolve (Suc k) slf =
     (case entity resolve slf of
        (r, slf', c) \<Rightarrow>
          (case read_entity resolve k slf' of (rs, slf'', c') \<Rightarrow> (r # rs, slf'', c + c')))"

section \<open>Notions used to state the properties\<close>

subsection \<open>Attempts and their outcomes\<close>

text \<open>
  The request that an attempt made in session state \<open>s\<close> prepares, what its send
  gives, and the session state it leaves.
\<close>

definition prepared_in :: "('s, 'r) requests_lib \<Rightarrow> 'r request_args \<Rightarrow> 's \<Rightarrow> prepared_request" where
  "prepared_in lib a s = prepare_request lib s (Request a)"

definition send_result ::
  "('s, 'r) requests_lib \<Rightarrow> 'r request_args \<Rightarrow> 's \<Rightarrow> request_exception + 'r" where
  "send_result lib a s = fst (send lib s (prepared_in lib a s) (allowRedirects a) (timeout a))"

definition next_session :: "('s, 'r) requests_lib \<Rightarrow> 'r request_args \<Rightarrow> 's \<Rightarrow> 's" where
  "next_session lib a s = snd (send lib s (prepared_in lib a s) (allowRedirects a) (timeout a))"

text \<open>A response is accepted when there is no callback, or the callback says so.\<close>

definition accepted :: "'r request_args \<Rightarrow> 'r \<Rightarrow> bool" where
  "accepted a r = (case responseOkCallback a of None \<Rightarrow> True | Some f \<Rightarrow> fst (f r))"


text \<open>An attempt fails by a transport error or by a rejected response.\<close>

definition attempt_fails :: "('s, 'r) requests_lib \<Rightarrow> 'r request_args \<Rightarrow> 's \<Rightarrow> bool" where
  "attempt_fails lib a s =
     (case send_result lib a s of Inl exc \<Rightarrow> True | Inr r \<Rightarrow> \<not> accepted a r)"

definition attempt_returns :: "('s, 'r) requests_lib \<Rightarrow> 'r request_args \<Rightarrow> 's \<Rightarrow> 'r \<Rightarrow> bool" where
  "attempt_returns lib a s r = (send_result lib a s = Inr r \<and> accepted a r)"

text \<open>The session state in which attempt \<open>k\<close> (counted from 0) starts.\<close>

definition session_at :: "('s, 'r) requests_lib \<Rightarrow> 'r request_args \<Rightarrow> 's \<Rightarrow> nat \<Rightarrow> 's" where
  "session_at lib a s k = (next_session lib a ^^ k) s"

text \<open>The first \<open>m\<close> attempts (numbers \<open>0\<close> to \<open>m - 1\<close>) all fail.\<close>

definition all_fail :: "('s, 'r) requests_lib \<Rightarrow> 'r request_args \<Rightarrow> 's \<Rightarrow> nat \<Rightarrow> bool" where
  "all_fail lib a s m = list_all (\<lambda>k. attempt_fails lib a (session_at lib a s k)) [0 ..< m]"


text \<open>
  The frame in which iteration \<open>k\<close> starts when the iterations before it fell
  through, and the effects of that iteration.
\<close>

definition frame_at ::
  "('s, 'r) requests_lib \<Rightarrow> 'r request_args \<Rightarrow> ('s, 'e) scraper \<Rightarrow> nat \<Rightarrow> ('s, 'e) frame" where
  "frame_at lib a slf k =
     \<lparr>self = slf\<lparr>session := session_at lib a (session slf) k\<rparr>,
      req = (if k = 0 then None
             else Some (prepared_in lib a (session_at lib a (session slf) (k - 1))))\<rparr>"

definition attempt_events ::
  "('s, 'r) requests_lib \<Rightarrow> 'r request_args \<Rightarrow> ('s, 'e) scraper \<Rightarrow> nat \<Rightarrow> event list" where
  "attempt_events lib a slf k = snd (snd (attempt_body lib a k (frame_at lib a slf k)))"

definition run_events ::
  "('s, 'r) requests_lib \<Rightarrow> 'r request_args \<Rightarrow> ('s, 'e) scraper \<Rightarrow> nat \<Rightarrow> event list" where
  "run_events lib a slf j = concat (map (attempt_events lib a slf) [0 ..< j])"

subsection \<open>Views of the effects\<close>

definition actions :: "event list \<Rightarrow> event list" where
  "actions ev = filter (\<lambda>e. case e of Log l m \<Rightarrow> False | _ \<Rightarrow> True) ev"

definition timeline :: "event list \<Rightarrow> event list" where
  "timeline ev = filter (\<lambda>e. case e of Send q \<Rightarrow> True | Sleep d \<Rightarrow> True | _ \<Rightarrow> False) ev"


definition sends :: "event list \<Rightarrow> prepared_request list" where
  "sends ev = concat (map (\<lambda>e. case e of Send q \<Rightarrow> [q] | _ \<Rightarrow> []) ev)"


text \<open>The log records at level WARNING and above.\<close>

definition alerts :: "event list \<Rightarrow> (level \<times> string) list" where
  "alerts ev =
     concat (map (\<lambda>e. case e of Log l m \<Rightarrow> (if l = DEBUG \<or> l = INFO then [] else [(l, m)])
                           | _ \<Rightarrow> []) ev)"

subsection \<open>A scripted transport, for concrete runs\<close>

text \<open>
  The session state is the list of results that the coming sends will give (a
  connection error once the list is used up). The prepared request shows, in a header,
  how many results are left, so that it differs from attempt to attempt.
\<close>

definition scripted :: "((request_exception + string) list, string) requests_lib" where
  "scripted =
     \<lparr>prepare_request = (\<lambda>s rq. \<lparr>prepared_url = request_url rq,
                                 prepared_headers = [(''X-Left'', str_nat (length s))]\<rparr>),
      send = (\<lambda>s p ar t. case s of [] \<Rightarrow> (Inl (RequestException ''ConnectionError()''), [])
                                  | x # xs \<Rightarrow> (x, xs))\<rparr>"

definition timed_out :: "request_exception + string" where
  "timed_out = Inl (RequestException ''Timeout()'')"

definition reject_all :: "string \<Rightarrow> bool \<times> string option" where
  "reject_all r = (False, Some ''blocked'')"

definition example_args :: "string request_args" where
  "example_args = default_args ''GET'' ''https://example.org/feed''"

definition rejecting_args :: "string request_args" where
  "rejecting_args = example_args\<lparr>responseOkCallback := Some reject_all\<rparr>"

definition example_scraper ::
  "(request_exception + string) list \<Rightarrow> int \<Rightarrow> ((request_exception + string) list, string) scraper" where
  "example_scraper script n = init script n"

text \<open>
  A resolver for concrete runs of the property: it fails while the script of the session
  has an entry (and uses that entry up), and gives an account once the script is empty.
\<close>

definition flaky_resolver ::
  "((request_exception + string) list, string) resolver" where
  "flaky_resolver slf =
     (case session slf of
        [] \<Rightarrow> (Inr (Some ''@account''), [])
      | x # xs \<Rightarrow> (Inl (ScraperException ''1 requests to https://example.org/feed failed, giving up.''), xs))"

section \<open>Unrolling the loop\<close>

lemma session_at_0: "session_at lib a s 0 = s"
  by (simp add: session_at_def)

lemma session_at_Suc: "session_at lib a s (Suc k) = next_session lib a (session_at lib a s k)"
  by (simp add: session_at_def)

lemma backoff_ctl:
  "fst (backoff n k) =
     (if int k < n \<and> float_max_exp \<le> k
      then Raise (OverflowError ''int too large to convert to float'') else Next)"
  by (simp add: backoff_def float_of_power_def Let_def)

lemma body_ctl:
  "fst (attempt_body lib a k st) =
     (case send_result lib a (session (self st)) of
        Inl exc \<Rightarrow> fst (backoff (retries (self st)) k)
      | Inr r \<Rightarrow> if accepted a r then Return r else fst (backoff (retries (self st)) k))"
  by (simp add: attempt_body_def send_result_def prepared_in_def accepted_def Let_def
        case_prod_beta split: sum.splits option.splits)

lemma body_frame:
  "fst (snd (attempt_body lib a k st)) =
     st\<lparr>self := (self st)\<lparr>session := next_session lib a (session (self st))\<rparr>,
        req := Some (prepared_in lib a (session (self st)))\<rparr>"
  by (simp add: attempt_body_def next_session_def prepared_in_def Let_def
        case_prod_beta split: sum.splits option.splits)

lemma actions_append: "actions (xs @ ys) = actions xs @ actions ys"
  by (simp add: actions_def)



lemma actions_simps:
  "actions [] = []"
  "actions (Prepare q p # ev) = Prepare q p # actions ev"
  "actions (Send p # ev) = Send p # actions ev"
  "actions (Sleep d # ev) = Sleep d # actions ev"
  "actions (Log l m # ev) = actions ev"
  by (simp_all add: actions_def)


lemma actions_backoff:
  "actions (snd (backoff n k)) =
     (if int k < n \<and> k < float_max_exp then [Sleep (2 ^ k)] else [])"
  by (simp add: actions_simps backoff_def float_of_power_def Let_def)


lemma body_actions:
  "actions (snd (snd (attempt_body lib a k st))) =
     [Prepare (Request a) (prepared_in lib a (session (self st))),
      Send (prepared_in lib a (session (self st)))]
     @ (if attempt_fails lib a (session (self st)) \<and> int k < retries (self st)
             \<and> k < float_max_exp
        then [Sleep (2 ^ k)] else [])"
  by (simp add: attempt_body_def send_result_def prepared_in_def accepted_def attempt_fails_def
        Let_def actions_append actions_backoff actions_simps case_prod_beta
           split: sum.splits option.splits)


lemma for_loop_append:
  "for_loop body (xs @ ys) st =
     (case for_loop body xs st of
        (Next, st', ev) \<Rightarrow>
          (case for_loop body ys st' of (c, st'', ev') \<Rightarrow> (c, st'', ev @ ev'))
      | (c, st', ev) \<Rightarrow> (c, st', ev))"
  by (induction xs arbitrary: st) (auto split: prod.splits ctl.splits)

lemma frame_at_0: "frame_at lib a slf 0 = \<lparr>self = slf, req = None\<rparr>"
  by (simp add: frame_at_def session_at_0)

lemma frame_at_Suc:
  "fst (snd (attempt_body lib a k (frame_at lib a slf k))) = frame_at lib a slf (Suc k)"
  by (simp add: body_frame frame_at_def session_at_Suc)

lemma frame_at_self:
  "self (frame_at lib a slf k) = slf\<lparr>session := session_at lib a (session slf) k\<rparr>"
  by (simp add: frame_at_def)

lemma frame_at_req:
  "req (frame_at lib a slf (Suc k)) = Some (prepared_in lib a (session_at lib a (session slf) k))"
  by (simp add: frame_at_def)

lemma body_ctl_at:
  "fst (attempt_body lib a k (frame_at lib a slf k)) =
     (case send_result lib a (session_at lib a (session slf) k) of
        Inl exc \<Rightarrow> fst (backoff (retries slf) k)
      | Inr r \<Rightarrow> if accepted a r then Return r else fst (backoff (retries slf) k))"
  by (simp add: body_ctl frame_at_self split: sum.splits)

lemma body_failed:
  assumes "attempt_fails lib a (session_at lib a (session slf) k)"
    and "int k < retries slf \<longrightarrow> k < float_max_exp"
  shows "attempt_body lib a k (frame_at lib a slf k) =
           (Next, frame_at lib a slf (Suc k), attempt_events lib a slf k)"
proof -
  from assms(2) have "fst (backoff (retries slf) k) = Next"
    by (auto simp add: backoff_ctl)
  with assms(1) have "fst (attempt_body lib a k (frame_at lib a slf k)) = Next"
    by (auto simp add: body_ctl_at attempt_fails_def split: sum.splits)
  then show ?thesis
    by (simp add: prod_eq_iff frame_at_Suc attempt_events_def)
qed

lemma body_overflows:
  assumes "attempt_fails lib a (session_at lib a (session slf) k)"
    and "int k < retries slf" and "float_max_exp \<le> k"
  shows "attempt_body lib a k (frame_at lib a slf k) =
           (Raise (OverflowError ''int too large to convert to float''),
            frame_at lib a slf (Suc k), attempt_events lib a slf k)"
proof -
  from assms(2) assms(3)
  have "fst (backoff (retries slf) k) = Raise (OverflowError ''int too large to convert to float'')"
    by (simp add: backoff_ctl)
  with assms(1)
  have "fst (attempt_body lib a k (frame_at lib a slf k)) =
          Raise (OverflowError ''int too large to convert to float'')"
    by (auto simp add: body_ctl_at attempt_fails_def split: sum.splits)
  then show ?thesis
    by (simp add: prod_eq_iff frame_at_Suc attempt_events_def)
qed

lemma body_returns:
  assumes "attempt_returns lib a (session_at lib a (session slf) k) r"
  shows "attempt_body lib a k (frame_at lib a slf k) =
           (Return r, frame_at lib a slf (Suc k), attempt_events lib a slf k)"
proof -
  have "fst (attempt_body lib a k (frame_at lib a slf k)) = Return r"
    using assms by (simp add: body_ctl_at attempt_returns_def)
  then show ?thesis
    by (simp add: prod_eq_iff frame_at_Suc attempt_events_def)
qed

lemma all_fail_iff:
  "all_fail lib a s m \<longleftrightarrow> (\<forall>k<m. attempt_fails lib a (session_at lib a s k))"
  by (auto simp add: all_fail_def list_all_iff)

lemma all_fail_less: "all_fail lib a s m \<Longrightarrow> j \<le> m \<Longrightarrow> all_fail lib a s j"
  by (simp add: all_fail_iff)

lemma upt_split: "k < j \<Longrightarrow> [0 ..< j] = [0 ..< k] @ k # [Suc k ..< j]"
proof -
  assume "k < j"
  then have "[0 ..< j] = [0 ..< k] @ [k ..< j]"
    using upt_add_eq_append [of 0 k "j - k"] by simp
  with \<open>k < j\<close> show ?thesis
    by (simp add: upt_conv_Cons)
qed

lemma loop_all_fail:
  assumes "all_fail lib a (session slf) j"
    and "\<forall>k<j. int k < retries slf \<longrightarrow> k < float_max_exp"
  shows "for_loop (attempt_body lib a) [0 ..< j] \<lparr>self = slf, req = None\<rparr> =
           (Next, frame_at lib a slf j, run_events lib a slf j)"
  using assms
proof (induction j)
  case 0
  show ?case by (simp add: frame_at_0 run_events_def)
next
  case (Suc j)
  from Suc.prems(1) have prefix: "all_fail lib a (session slf) j"
    and here: "attempt_fails lib a (session_at lib a (session slf) j)"
    by (simp_all add: all_fail_iff)
  from Suc.prems(2) have range: "\<forall>k<j. int k < retries slf \<longrightarrow> k < float_max_exp"
    and range_here: "int j < retries slf \<longrightarrow> j < float_max_exp"
    by simp_all
  show ?case
    by (simp add: for_loop_append Suc.IH [OF prefix range] body_failed [OF here range_here]
          run_events_def)
qed

lemma loop_returns:
  assumes "all_fail lib a (session slf) k"
    and "attempt_returns lib a (session_at lib a (session slf) k) r"
    and "k < j" and "k \<le> float_max_exp"
  shows "for_loop (attempt_body lib a) [0 ..< j] \<lparr>self = slf, req = None\<rparr> =
           (Return r, frame_at lib a slf (Suc k), run_events lib a slf (Suc k))"
proof -
  from assms(4) have range: "\<forall>i<k. int i < retries slf \<longrightarrow> i < float_max_exp"
    by simp
  show ?thesis
    by (simp add: upt_split [OF assms(3)] for_loop_append loop_all_fail [OF assms(1) range]
          body_returns [OF assms(2)] run_events_def)
qed

lemma loop_overflows:
  assumes "all_fail lib a (session slf) (Suc float_max_exp)"
    and "int float_max_exp < retries slf" and "float_max_exp < j"
  shows "for_loop (attempt_body lib a) [0 ..< j] \<lparr>self = slf, req = None\<rparr> =
           (Raise (OverflowError ''int too large to convert to float''),
            frame_at lib a slf (Suc float_max_exp), run_events lib a slf (Suc float_max_exp))"
proof -
  from assms(1) have prefix: "all_fail lib a (session slf) float_max_exp"
    and here: "attempt_fails lib a (session_at lib a (session slf) float_max_exp)"
    by (simp_all add: all_fail_iff)
  have range: "\<forall>i<float_max_exp. int i < retries slf \<longrightarrow> i < float_max_exp"
    by simp
  show ?thesis
    by (simp add: upt_split [OF assms(3)] for_loop_append loop_all_fail [OF prefix range]
          body_overflows [OF here assms(2)] run_events_def)
qed

subsection \<open>The ways a call ends\<close>

lemma py_range_retries: "0 \<le> n \<Longrightarrow> py_range (n + 1) = [0 ..< Suc (nat n)]"
  by (simp add: py_range_def nat_add_distrib)

lemma request_exhausted:
  assumes "0 \<le> retries slf" and "retries slf \<le> int float_max_exp"
    and "all_fail lib a (session slf) (Suc (nat (retries slf)))"
  shows "request lib slf a =
           (Raise (ScraperException
                     (str_int (retries slf + 1) @ '' requests to ''
                        @ prepared_url (prepared_in lib a
                             (session_at lib a (session slf) (nat (retries slf))))
                        @ '' failed, giving up.'')),
            slf\<lparr>session := session_at lib a (session slf) (Suc (nat (retries slf)))\<rparr>,
            run_events lib a slf (Suc (nat (retries slf)))
              @ [Log FATAL (str_int (retries slf + 1) @ '' requests to ''
                        @ prepared_url (prepared_in lib a
                             (session_at lib a (session slf) (nat (retries slf))))
                        @ '' failed, giving up.'')])"
proof -
  from assms(2)
  have range: "\<forall>k<Suc (nat (retries slf)). int k < retries slf \<longrightarrow> k < float_max_exp"
    by auto
  have "for_loop (attempt_body lib a) (py_range (retries slf + 1)) \<lparr>self = slf, req = None\<rparr> =
          (Next, frame_at lib a slf (Suc (nat (retries slf))),
           run_events lib a slf (Suc (nat (retries slf))))"
    unfolding py_range_retries [OF assms(1)] by (rule loop_all_fail [OF assms(3) range])
  then show ?thesis
    by (simp add: request_def request_frame_def else_clause_def frame_at_req frame_at_self
          Let_def)
qed

lemma request_returns:
  assumes "0 \<le> retries slf" and "k \<le> nat (retries slf)" and "k \<le> float_max_exp"
    and "all_fail lib a (session slf) k"
    and "attempt_returns lib a (session_at lib a (session slf) k) r"
  shows "request lib slf a =
           (Return r, slf\<lparr>session := session_at lib a (session slf) (Suc k)\<rparr>,
            run_events lib a slf (Suc k))"
proof -
  from assms(2) have "k < Suc (nat (retries slf))" by simp
  then have "for_loop (attempt_body lib a) (py_range (retries slf + 1))
               \<lparr>self = slf, req = None\<rparr> =
             (Return r, frame_at lib a slf (Suc k), run_events lib a slf (Suc k))"
    unfolding py_range_retries [OF assms(1)]
    by (rule loop_returns [OF assms(4) assms(5) _ assms(3)])
  then show ?thesis
    by (simp add: request_def request_frame_def frame_at_self)
qed

lemma request_overflows:
  assumes "int float_max_exp < retries slf"
    and "all_fail lib a (session slf) (Suc float_max_exp)"
  shows "request lib slf a =
           (Raise (OverflowError ''int too large to convert to float''),
            slf\<lparr>session := session_at lib a (session slf) (Suc float_max_exp)\<rparr>,
            run_events lib a slf (Suc float_max_exp))"
proof -
  from assms(1) have nonneg: "0 \<le> retries slf" and "float_max_exp < Suc (nat (retries slf))"
    by simp_all
  then have "for_loop (attempt_body lib a) (py_range (retries slf + 1))
               \<lparr>self = slf, req = None\<rparr> =
             (Raise (OverflowError ''int too large to convert to float''),
              frame_at lib a slf (Suc float_max_exp), run_events lib a slf (Suc float_max_exp))"
    unfolding py_range_retries [OF nonneg] by (intro loop_overflows [OF assms(2) assms(1)])
  then show ?thesis
    by (simp add: request_def request_frame_def frame_at_self)
qed

lemma request_negative:
  assumes "retries slf < 0"
  shows "request lib slf a = (Raise (UnboundLocalError ''req''), slf, [])"
  using assms by (simp add: request_def request_frame_def py_range_def else_clause_def)

lemma not_fails_returns:
  "\<not> attempt_fails lib a s \<Longrightarrow> \<exists>r. attempt_returns lib a s r"
  by (auto simp add: attempt_fails_def attempt_returns_def split: sum.splits)

lemma returns_not_fails:
  "attempt_returns lib a s r \<Longrightarrow> \<not> attempt_fails lib a s"
  by (simp add: attempt_fails_def attempt_returns_def)

lemma outcome_cases:
  obtains (exhausted) "all_fail lib a s m"
  | (returned) k r where "k < m" and "all_fail lib a s k"
      and "attempt_returns lib a (session_at lib a s k) r"
proof (cases "all_fail lib a s m")
  case True
  then show ?thesis by (rule exhausted)
next
  case False
  define P where "P k \<longleftrightarrow> \<not> attempt_fails lib a (session_at lib a s k)" for k
  from False obtain j where "j < m" and "P j"
    by (auto simp add: all_fail_iff P_def)
  define k where "k = (LEAST i. P i)"
  have "P k" unfolding k_def using \<open>P j\<close> by (rule LeastI)
  have "k \<le> j" unfolding k_def using \<open>P j\<close> by (rule Least_le)
  have before: "all_fail lib a s k"
    unfolding all_fail_iff
  proof (intro allI impI)
    fix i assume "i < k"
    then have "\<not> P i" unfolding k_def by (rule not_less_Least)
    then show "attempt_fails lib a (session_at lib a s i)" by (simp add: P_def)
  qed
  from \<open>P k\<close> obtain r where "attempt_returns lib a (session_at lib a s k) r"
    unfolding P_def by (blast dest: not_fails_returns)
  with \<open>k \<le> j\<close> \<open>j < m\<close> before show ?thesis
    by (intro returned [of k r]) simp_all
qed

lemma all_fail_contra:
  assumes "all_fail lib a s m" and "k < m" and "attempt_returns lib a (session_at lib a s k) r"
  shows False
  using assms by (auto simp add: all_fail_iff dest: returns_not_fails)

text \<open>
  Every call with a retry count \<open>n \<ge> 0\<close> ends in one of three ways: all \<open>n + 1\<close>
  attempts fail (\<open>n \<le> 1024\<close>), attempt \<open>k\<close> is the first whose response is accepted
  (\<open>k \<le> n\<close>, \<open>k \<le> 1024\<close>), or attempts \<open>0\<close> to \<open>1024\<close> fail and the sleep time after
  attempt \<open>1024\<close> overflows (\<open>n > 1024\<close>).
\<close>

lemma run_cases:
  assumes "0 \<le> retries slf"
  obtains (exhausted) "retries slf \<le> int float_max_exp"
      and "all_fail lib a (session slf) (Suc (nat (retries slf)))"
  | (returned) k r where "k \<le> nat (retries slf)" and "k \<le> float_max_exp"
      and "all_fail lib a (session slf) k"
      and "attempt_returns lib a (session_at lib a (session slf) k) r"
  | (overflowed) "int float_max_exp < retries slf"
      and "all_fail lib a (session slf) (Suc float_max_exp)"
proof (cases rule: outcome_cases
    [of lib a "session slf" "min (Suc (nat (retries slf))) (Suc float_max_exp)"])
  case exhausted
  show ?thesis
  proof (cases "retries slf \<le> int float_max_exp")
    case True
    then have "min (Suc (nat (retries slf))) (Suc float_max_exp) = Suc (nat (retries slf))"
      by simp
    with exhausted True show ?thesis
      by (intro that(1)) simp_all
  next
    case False
    then have "min (Suc (nat (retries slf))) (Suc float_max_exp) = Suc float_max_exp"
      by simp
    with exhausted False show ?thesis
      by (intro that(3)) simp_all
  qed
next
  case (returned k r)
  then show ?thesis
    by (intro that(2) [of k r]) simp_all
qed

subsection \<open>The views of a run\<close>

lemma sends_append: "sends (xs @ ys) = sends xs @ sends ys"
  by (simp add: sends_def)


lemma timeline_append: "timeline (xs @ ys) = timeline xs @ timeline ys"
  by (simp add: timeline_def)


lemma sends_actions: "sends (actions ev) = sends ev"
  by (induction ev) (simp_all add: sends_def actions_def split: event.splits)


lemma timeline_actions: "timeline (actions ev) = timeline ev"
  by (induction ev) (simp_all add: timeline_def actions_def split: event.splits)


lemma attempt_actions:
  "actions (attempt_events lib a slf k) =
     [Prepare (Request a) (prepared_in lib a (session_at lib a (session slf) k)),
      Send (prepared_in lib a (session_at lib a (session slf) k))]
     @ (if attempt_fails lib a (session_at lib a (session slf) k) \<and> int k < retries slf
             \<and> k < float_max_exp
        then [Sleep (2 ^ k)] else [])"
  by (simp add: attempt_events_def body_actions frame_at_self)


lemma run_events_Suc:
  "run_events lib a slf (Suc j) = run_events lib a slf j @ attempt_events lib a slf j"
  by (simp add: run_events_def)

lemma run_events_0: "run_events lib a slf 0 = []"
  by (simp add: run_events_def)

lemma attempt_sends:
  "sends (attempt_events lib a slf k) = [prepared_in lib a (session_at lib a (session slf) k)]"
proof -
  have "sends (attempt_events lib a slf k) = sends (actions (attempt_events lib a slf k))"
    by (simp add: sends_actions)
  also have "\<dots> = [prepared_in lib a (session_at lib a (session slf) k)]"
    by (simp add: attempt_actions) (simp add: sends_def)
  finally show ?thesis .
qed



lemma attempt_timeline:
  "timeline (attempt_events lib a slf k) =
     Send (prepared_in lib a (session_at lib a (session slf) k))
     # (if attempt_fails lib a (session_at lib a (session slf) k) \<and> int k < retries slf
            \<and> k < float_max_exp
        then [Sleep (2 ^ k)] else [])"
proof -
  have "timeline (attempt_events lib a slf k) = timeline (actions (attempt_events lib a slf k))"
    by (simp add: timeline_actions)
  also have "\<dots> = Send (prepared_in lib a (session_at lib a (session slf) k))
     # (if attempt_fails lib a (session_at lib a (session slf) k) \<and> int k < retries slf
            \<and> k < float_max_exp
        then [Sleep (2 ^ k)] else [])"
    by (simp add: attempt_actions) (simp add: timeline_def)
  finally show ?thesis .
qed

lemma sends_run:
  "sends (run_events lib a slf j) =
     map (\<lambda>k. prepared_in lib a (session_at lib a (session slf) k)) [0 ..< j]"
  by (induction j)
    (simp_all add: run_events_0 run_events_Suc sends_append attempt_sends, simp add: sends_def)

lemma length_sends_run: "length (sends (run_events lib a slf j)) = j"
  by (simp only: sends_run) simp



lemma timeline_run_failed:
  assumes "all_fail lib a (session slf) j" and "int j \<le> retries slf" and "j \<le> float_max_exp"
  shows "timeline (run_events lib a slf j) =
           concat (map (\<lambda>k. [Send (prepared_in lib a (session_at lib a (session slf) k)),
                              Sleep (2 ^ k)]) [0 ..< j])"
  using assms
proof (induction j)
  case 0
  show ?case by (simp add: run_events_0 timeline_def)
next
  case (Suc j)
  then show ?case
    by (simp add: run_events_Suc timeline_append attempt_timeline all_fail_iff)
qed


lemma timeline_run_last:
  assumes "all_fail lib a (session slf) j" and "int j \<le> retries slf" and "j \<le> float_max_exp"
    and "\<not> (attempt_fails lib a (session_at lib a (session slf) j) \<and> int j < retries slf
            \<and> j < float_max_exp)"
  shows "timeline (run_events lib a slf (Suc j)) =
           concat (map (\<lambda>k. [Send (prepared_in lib a (session_at lib a (session slf) k)),
                              Sleep (2 ^ k)]) [0 ..< j])
           @ [Send (prepared_in lib a (session_at lib a (session slf) j))]"
  using assms(4)
  by (simp add: run_events_Suc timeline_append
        timeline_run_failed [OF assms(1) assms(2) assms(3)] attempt_timeline)


lemma sends_fatal: "sends (ev @ [Log FATAL m]) = sends ev"
  by (simp add: sends_def)


lemma timeline_fatal: "timeline (ev @ [Log FATAL m]) = timeline ev"
  by (simp add: timeline_def)


lemma alerts_fatal: "alerts (ev @ [Log FATAL m]) = alerts ev @ [(FATAL, m)]"
  by (simp add: alerts_def)

lemma failure_levels:
  assumes "0 \<le> n"
  shows "map (failure_level n) [0 ..< Suc (nat n)] = replicate (nat n) WARNING @ [ERROR]"
proof -
  have "map (failure_level n) [0 ..< nat n] = replicate (nat n) WARNING"
    by (rule nth_equalityI) (simp_all add: failure_level_def)
  then show ?thesis using assms by (simp add: failure_level_def)
qed




subsection \<open>The scripted transport once its script is used up\<close>








subsection \<open>Reads of the cached property\<close>

lemma entity_cached:
  "entity_slot slf = Some v \<Longrightarrow> entity resolve slf = (Inr v, slf, 0)"
  by (simp add: entity_def)

lemma read_entity_cached:
  "entity_slot slf = Some v \<Longrightarrow> read_entity resolve k slf = (replicate k (Inr v), slf, 0)"
  by (induction k) (simp_all add: entity_cached)

lemma read_entity_first:
  assumes "entity_slot slf = None" and "resolve slf = (Inr v, s')"
  shows "read_entity resolve (Suc k) slf =
           (replicate (Suc k) (Inr v), slf\<lparr>session := s', entity_slot := Some v\<rparr>, 1)"
proof -
  from assms
  have first: "entity resolve slf = (Inr v, slf\<lparr>session := s', entity_slot := Some v\<rparr>, 1)"
    by (simp add: entity_def)
  have "read_entity resolve k (slf\<lparr>session := s', entity_slot := Some v\<rparr>) =
          (replicate k (Inr v), slf\<lparr>session := s', entity_slot := Some v\<rparr>, 0)"
    by (rule read_entity_cached) simp
  with first show ?thesis
    by simp
qed

section \<open>Properties of the retry loop\<close>

text \<open>
  In the statements below, \<open>session_at lib a (session slf) k\<close> is the session state in
  which attempt \<open>k\<close> starts, \<open>prepared_in lib a s\<close> is the request prepared in
  session state \<open>s\<close>, and \<open>float_max_exp\<close> is \<open>1024\<close>.
\<close>

text \<open>
  The number of sends of a call with a retry count \<open>n \<ge> 0\<close>: at least one, at most
  \<open>n + 1\<close> and at most \<open>1025\<close>. When \<open>n \<le> 1024\<close> and all \<open>n + 1\<close> attempts
  fail, the call makes exactly \<open>n + 1\<close> sends and raises ScraperException with the
  attempt count and the URL of the last request.
\<close>

lemma exhaustion_within_float_range:
  assumes "0 \<le> retries slf"
  shows "case request lib slf a of
           (c, slf', ev) \<Rightarrow>
             1 \<le> length (sends ev) \<and> int (length (sends ev)) \<le> retries slf + 1 \<and>
             length (sends ev) \<le> Suc float_max_exp \<and>
             (retries slf \<le> int float_max_exp \<and>
              all_fail lib a (session slf) (nat (retries slf + 1)) \<longrightarrow>
                int (length (sends ev)) = retries slf + 1 \<and>
                c = Raise (ScraperException
                             (str_int (retries slf + 1) @ '' requests to ''
                                @ prepared_url (last (sends ev)) @ '' failed, giving up.'')))"
proof -
  have m: "nat (retries slf + 1) = Suc (nat (retries slf))"
    using assms by (simp add: nat_add_distrib)
  show ?thesis
    using assms
  proof (cases rule: run_cases [where lib = lib and a = a])
    case exhausted
    have "last (sends (run_events lib a slf (Suc (nat (retries slf))))) =
            prepared_in lib a (session_at lib a (session slf) (nat (retries slf)))"
      by (simp only: sends_run) simp
    then show ?thesis
      using assms exhausted(1)
      by (simp add: request_exhausted [OF assms exhausted] sends_fatal length_sends_run)
  next
    case (returned k r)
    have "\<not> all_fail lib a (session slf) (Suc (nat (retries slf)))"
      using all_fail_contra [OF _ _ returned(4)] returned(1) by (meson le_imp_less_Suc)
    then show ?thesis
      using returned(1) returned(2) assms
      by (simp add: request_returns [OF assms returned] length_sends_run m)
  next
    case overflowed
    then show ?thesis
      by (simp add: request_overflows [OF overflowed] length_sends_run)
  qed
qed




text \<open>
  Claim C3. For a retry count \<open>n \<ge> 0\<close>, the sends and sleeps of a call are, in order,
  send \<open>0\<close>, sleep \<open>1.0 * 2 ^ 0\<close>, send \<open>1\<close>, sleep \<open>1.0 * 2 ^ 1\<close>, \<dots>, send
  \<open>m\<close>: a failed attempt \<open>i\<close> that is followed by another attempt is separated
  from it by exactly one sleep of \<open>1.0 * 2 ^ i\<close> seconds, there is no sleep before the
  first send and none after the last.
\<close>

theorem backoff_between_attempts:
  assumes "0 \<le> retries slf"
  shows "case request lib slf a of
           (c, slf', ev) \<Rightarrow>
             timeline ev =
               concat (map (\<lambda>i. [Send (prepared_in lib a (session_at lib a (session slf) i)),
                                  Sleep (1 * 2 ^ i)]) [0 ..< length (sends ev) - 1])
               @ [Send (prepared_in lib a
                          (session_at lib a (session slf) (length (sends ev) - 1)))]"
  using assms
proof (cases rule: run_cases [where lib = lib and a = a])
  case exhausted
  from exhausted(2) have prefix: "all_fail lib a (session slf) (nat (retries slf))"
    by (rule all_fail_less) simp
  from assms have le: "int (nat (retries slf)) \<le> retries slf"
    by simp
  from exhausted(1) have le': "nat (retries slf) \<le> float_max_exp"
    by simp
  from assms have "\<not> (attempt_fails lib a (session_at lib a (session slf) (nat (retries slf)))
            \<and> int (nat (retries slf)) < retries slf \<and> nat (retries slf) < float_max_exp)"
    by simp
  from timeline_run_last [OF prefix le le' this] show ?thesis
    by (simp add: request_exhausted [OF assms exhausted] sends_fatal timeline_fatal
          length_sends_run)
next
  case (returned k r)
  from returned(1) assms have le: "int k \<le> retries slf" by simp
  from returned(4) have "\<not> (attempt_fails lib a (session_at lib a (session slf) k)
            \<and> int k < retries slf \<and> k < float_max_exp)"
    by (simp add: returns_not_fails)
  from timeline_run_last [OF returned(3) le returned(2) this] show ?thesis
    by (simp add: request_returns [OF assms returned] length_sends_run)
next
  case overflowed
  from overflowed(2) have prefix: "all_fail lib a (session slf) float_max_exp"
    by (rule all_fail_less) simp
  from overflowed(1) have le: "int float_max_exp \<le> retries slf"
    by simp
  have "\<not> (attempt_fails lib a (session_at lib a (session slf) float_max_exp)
            \<and> int float_max_exp < retries slf \<and> float_max_exp < float_max_exp)"
    by simp
  from timeline_run_last [OF prefix le order_refl this] show ?thesis
    by (simp add: request_overflows [OF overflowed] length_sends_run)
qed

theorem backoff_between_attempts_witness:
  "0 \<le> retries (example_scraper [timed_out, Inr ''busy'', timed_out, Inr ''busy''] 3) \<and>
   timeline (snd (snd (request scripted
       (example_scraper [timed_out, Inr ''busy'', timed_out, Inr ''busy''] 3) rejecting_args))) =
     [Send \<lparr>prepared_url = ''https://example.org/feed'', prepared_headers = [(''X-Left'', ''4'')]\<rparr>,
      Sleep 1,
      Send \<lparr>prepared_url = ''https://example.org/feed'', prepared_headers = [(''X-Left'', ''3'')]\<rparr>,
      Sleep 2,
      Send \<lparr>prepared_url = ''https://example.org/feed'', prepared_headers = [(''X-Left'', ''2'')]\<rparr>,
      Sleep 4,
      Send \<lparr>prepared_url = ''https://example.org/feed'', prepared_headers = [(''X-Left'', ''1'')]\<rparr>]"
proof -
  let ?slf = "example_scraper [timed_out, Inr ''busy'', timed_out, Inr ''busy''] 3"
  have h: "0 \<le> retries ?slf"
    by (simp add: example_scraper_def init_def)
  have n: "length (sends (snd (snd (request scripted ?slf rejecting_args)))) = 4"
    by code_simp
  have u: "[0 ..< 3] = [0, 1, 2]"
    by code_simp
  have p: "map (\<lambda>i. prepared_in scripted rejecting_args
                      (session_at scripted rejecting_args (session ?slf) i)) [0, 1, 2, 3] =
           [\<lparr>prepared_url = ''https://example.org/feed'', prepared_headers = [(''X-Left'', ''4'')]\<rparr>,
            \<lparr>prepared_url = ''https://example.org/feed'', prepared_headers = [(''X-Left'', ''3'')]\<rparr>,
            \<lparr>prepared_url = ''https://example.org/feed'', prepared_headers = [(''X-Left'', ''2'')]\<rparr>,
            \<lparr>prepared_url = ''https://example.org/feed'', prepared_headers = [(''X-Left'', ''1'')]\<rparr>]"
    by code_simp
  from backoff_between_attempts [OF h, of scripted rejecting_args] h p
  show ?thesis
    by (simp add: case_prod_beta n u)
qed










text \<open>
  Claim C9. For a retry count \<open>n \<ge> 0\<close>, whenever the loop uses up its range (so that
  the \<^verbatim>\<open>else\<close> clause runs) at least one send was made and the variable \<^verbatim>\<open>req\<close>
  is bound, the clause raises ScraperException, and no call fails with an unbound local
  variable. For a negative retry count the loop body never runs and a call fails with
  the unbound-local-variable error in the \<^verbatim>\<open>else\<close> clause, whatever the transport
  would do, without any effect.
\<close>

theorem req_bound_at_exhaustion:
  "(0 \<le> retries slf \<longrightarrow>
      (\<forall>st ev. for_loop (attempt_body lib a) (py_range (retries slf + 1))
                  \<lparr>self = slf, req = None\<rparr> = (Next, st, ev) \<longrightarrow>
         1 \<le> length (sends ev) \<and> req st \<noteq> None \<and>
         (\<exists>m. fst (else_clause st) = Raise (ScraperException m))) \<and>
      (\<forall>v. fst (request lib slf a) \<noteq> Raise (UnboundLocalError v))) \<and>
   (retries slf < 0 \<longrightarrow>
      request lib slf a = (Raise (UnboundLocalError ''req''), slf, []))"
proof (intro conjI impI allI)
  assume "retries slf < 0"
  then show "request lib slf a = (Raise (UnboundLocalError ''req''), slf, [])"
    by (rule request_negative)
next
  fix v
  assume nonneg: "0 \<le> retries slf"
  then show "fst (request lib slf a) \<noteq> Raise (UnboundLocalError v)"
  proof (cases rule: run_cases [where lib = lib and a = a])
    case exhausted
    show ?thesis by (simp add: request_exhausted [OF nonneg exhausted])
  next
    case (returned k r)
    show ?thesis by (simp add: request_returns [OF nonneg returned])
  next
    case overflowed
    show ?thesis by (simp add: request_overflows [OF overflowed])
  qed
next
  fix st ev
  assume nonneg: "0 \<le> retries slf"
    and loop: "for_loop (attempt_body lib a) (py_range (retries slf + 1))
                 \<lparr>self = slf, req = None\<rparr> = (Next, st, ev)"
  from nonneg have shape: "st = frame_at lib a slf (Suc (nat (retries slf))) \<and>
               ev = run_events lib a slf (Suc (nat (retries slf)))"
  proof (cases rule: run_cases [where lib = lib and a = a])
    case exhausted
    from exhausted(1)
    have "\<forall>k<Suc (nat (retries slf)). int k < retries slf \<longrightarrow> k < float_max_exp"
      by auto
    from loop_all_fail [OF exhausted(2) this] loop show ?thesis
      by (simp only: py_range_retries [OF nonneg]) simp
  next
    case (returned k r)
    from returned(1) have "k < Suc (nat (retries slf))" by simp
    from loop_returns [OF returned(3) returned(4) this returned(2)] loop show ?thesis
      by (simp only: py_range_retries [OF nonneg]) simp
  next
    case overflowed
    from overflowed(1) have "float_max_exp < Suc (nat (retries slf))" by simp
    from loop_overflows [OF overflowed(2) overflowed(1) this] loop show ?thesis
      by (simp only: py_range_retries [OF nonneg]) simp
  qed
  then show "1 \<le> length (sends ev)"
    by (simp add: length_sends_run)
  from shape show "req st \<noteq> None"
    by (simp add: frame_at_req)
  from shape show "\<exists>m. fst (else_clause st) = Raise (ScraperException m)"
    by (simp add: else_clause_def frame_at_req Let_def)
qed

theorem req_bound_at_exhaustion_witness:
  "0 \<le> retries (example_scraper [timed_out] 0) \<and>
   for_loop (attempt_body scripted example_args)
       (py_range (retries (example_scraper [timed_out] 0) + 1))
       \<lparr>self = example_scraper [timed_out] 0, req = None\<rparr> =
     (Next,
      fst (snd (for_loop (attempt_body scripted example_args) (py_range 1)
                  \<lparr>self = example_scraper [timed_out] 0, req = None\<rparr>)),
      snd (snd (for_loop (attempt_body scripted example_args) (py_range 1)
                  \<lparr>self = example_scraper [timed_out] 0, req = None\<rparr>))) \<and>
   req (fst (snd (for_loop (attempt_body scripted example_args) (py_range 1)
                    \<lparr>self = example_scraper [timed_out] 0, req = None\<rparr>))) \<noteq> None \<and>
   retries (example_scraper [timed_out] (- 1)) < 0 \<and>
   request scripted (example_scraper [timed_out] (- 1)) example_args =
     (Raise (UnboundLocalError ''req''), example_scraper [timed_out] (- 1), [])"
proof -
  let ?s0 = "example_scraper [timed_out] 0"
  let ?s1 = "example_scraper [timed_out] (- 1)"
  let ?loop = "for_loop (attempt_body scripted example_args) (py_range 1)
                 \<lparr>self = ?s0, req = None\<rparr>"
  have n0: "retries ?s0 = 0" and n1: "retries ?s1 = - 1"
    by (simp_all add: example_scraper_def init_def)
  have c: "fst ?loop = Next"
    by code_simp
  then have l: "for_loop (attempt_body scripted example_args) (py_range (retries ?s0 + 1))
                  \<lparr>self = ?s0, req = None\<rparr> = (Next, fst (snd ?loop), snd (snd ?loop))"
    by (simp add: n0 prod_eq_iff)
  have h: "0 \<le> retries ?s0"
    by (simp add: n0)
  from req_bound_at_exhaustion [of ?s0 scripted example_args] h l
  have "req (fst (snd ?loop)) \<noteq> None"
    by blast
  moreover from req_bound_at_exhaustion [of ?s1 scripted example_args]
  have "request scripted ?s1 example_args = (Raise (UnboundLocalError ''req''), ?s1, [])"
    by (simp add: n1)
  ultimately show ?thesis
    using l by (simp add: n0 n1)
qed

section \<open>Properties of the cached property\<close>

text \<open>
  Claim C6, as stated: any number \<open>N \<ge> 1\<close> of reads makes exactly one call of
  \<^verbatim>\<open>_get_entity\<close>. It does not when the first call raises: with a resolver that fails
  once and then succeeds, three reads make two calls, and the first read gives no value.
\<close>

theorem entity_resolved_again_after_failure:
  "snd (snd (read_entity flaky_resolver 3 (example_scraper [timed_out] 3))) = 2 \<and>
   fst (read_entity flaky_resolver 3 (example_scraper [timed_out] 3)) =
     [Inl (ScraperException ''1 requests to https://example.org/feed failed, giving up.''),
      Inr (Some ''@account''), Inr (Some ''@account'')]"
  by code_simp

text \<open>
  Claim C6, amended. On an instance whose entity has not been read yet and whose
  \<^verbatim>\<open>_get_entity\<close> returns a value \<open>v\<close> (possibly \<^verbatim>\<open>None\<close>) on its first call, reading
  the property \<open>N \<ge> 1\<close> times makes exactly one call of \<^verbatim>\<open>_get_entity\<close>, and every
  one of the \<open>N\<close> reads gives \<open>v\<close>.
\<close>

theorem entity_resolved_once:
  assumes "entity_slot slf = None" and "resolve slf = (Inr v, s')" and "1 \<le> N"
  shows "read_entity resolve N slf =
           (replicate N (Inr v), slf\<lparr>session := s', entity_slot := Some v\<rparr>, 1)"
proof -
  from assms(3) obtain k where N: "N = Suc k"
    by (cases N) simp_all
  show ?thesis
    unfolding N by (rule read_entity_first [where resolve = resolve, OF assms(1) assms(2)])
qed

theorem entity_resolved_once_witness:
  "entity_slot (example_scraper [] 3) = None \<and>
   flaky_resolver (example_scraper [] 3) = (Inr (Some ''@account''), []) \<and>
   (1::nat) \<le> 3 \<and>
   read_entity flaky_resolver 3 (example_scraper [] 3) =
     ([Inr (Some ''@account''), Inr (Some ''@account''), Inr (Some ''@account'')],
      (example_scraper [] 3)\<lparr>session := [], entity_slot := Some (Some ''@account'')\<rparr>, 1)"
proof -
  have h1: "entity_slot (example_scraper [] 3) = None"
    by (simp add: example_scraper_def init_def)
  have h2: "flaky_resolver (example_scraper [] 3) = (Inr (Some ''@account''), [])"
    by (simp add: flaky_resolver_def example_scraper_def init_def)
  have h3: "(1::nat) \<le> 3"
    by simp
  have r: "replicate 3 x = [x, x, x]" for x :: "error + string option"
    by (simp add: numeral_3_eq_3)
  from entity_resolved_once [where resolve = flaky_resolver, OF h1 h2 h3] h1 h2
  show ?thesis
    by (simp add: r)
qed

text \<open>
  Claim C10. When \<^verbatim>\<open>_get_entity\<close> raises on the first read, the read raises the same
  exception and stores nothing, so the next read calls \<^verbatim>\<open>_get_entity\<close> again and
  gives what that call gives. With the \<^verbatim>\<open>_get_entity\<close> of the base class, every read
  gives \<^verbatim>\<open>None\<close>.
\<close>

theorem failed_resolution_not_cached:
  "(entity_slot slf = None \<and> resolve slf = (Inl e, s') \<longrightarrow>
      entity resolve slf = (Inl e, slf\<lparr>session := s'\<rparr>, 1) \<and>
      entity_slot (slf\<lparr>session := s'\<rparr>) = None \<and>
      snd (snd (entity resolve (slf\<lparr>session := s'\<rparr>))) = 1 \<and>
      fst (entity resolve (slf\<lparr>session := s'\<rparr>)) = fst (resolve (slf\<lparr>session := s'\<rparr>))) \<and>
   (entity_slot slf = None \<longrightarrow>
      fst (read_entity get_entity N slf) = replicate N (Inr None))"
proof (intro conjI impI)
  assume a: "entity_slot slf = None \<and> resolve slf = (Inl e, s')"
  then show "entity resolve slf = (Inl e, slf\<lparr>session := s'\<rparr>, 1)"
    by (simp add: entity_def)
  from a show "entity_slot (slf\<lparr>session := s'\<rparr>) = None"
    by simp
  from a show "snd (snd (entity resolve (slf\<lparr>session := s'\<rparr>))) = 1"
    by (simp add: entity_def split: prod.splits sum.splits)
  from a show "fst (entity resolve (slf\<lparr>session := s'\<rparr>)) = fst (resolve (slf\<lparr>session := s'\<rparr>))"
    by (simp add: entity_def split: prod.splits sum.splits)
next
  assume fresh: "entity_slot slf = None"
  show "fst (read_entity get_entity N slf) = replicate N (Inr None)"
  proof (cases N)
    case 0
    then show ?thesis by simp
  next
    case (Suc k)
    have "get_entity slf = (Inr None, session slf)"
      by (simp add: get_entity_def)
    from read_entity_first [where resolve = get_entity, OF fresh this] show ?thesis
      by (simp only: Suc fst_conv)
  qed
qed

theorem failed_resolution_not_cached_witness:
  "entity_slot (example_scraper [timed_out] 3) = None \<and>
   flaky_resolver (example_scraper [timed_out] 3) =
     (Inl (ScraperException ''1 requests to https://example.org/feed failed, giving up.''), []) \<and>
   entity flaky_resolver (example_scraper [timed_out] 3) =
     (Inl (ScraperException ''1 requests to https://example.org/feed failed, giving up.''),
      (example_scraper [timed_out] 3)\<lparr>session := []\<rparr>, 1) \<and>
   snd (snd (entity flaky_resolver ((example_scraper [timed_out] 3)\<lparr>session := []\<rparr>))) = 1 \<and>
   fst (entity flaky_resolver ((example_scraper [timed_out] 3)\<lparr>session := []\<rparr>)) =
     Inr (Some ''@account'') \<and>
   fst (read_entity get_entity 2 (example_scraper [timed_out] 3)) = [Inr None, Inr None]"
proof -
  let ?slf = "example_scraper [timed_out] 3"
  have h1: "entity_slot ?slf = None"
    by (simp add: example_scraper_def init_def)
  have h2: "flaky_resolver ?slf =
              (Inl (ScraperException ''1 requests to https://example.org/feed failed, giving up.''), [])"
    by (simp add: flaky_resolver_def example_scraper_def init_def timed_out_def)
  have again: "fst (flaky_resolver (?slf\<lparr>session := []\<rparr>)) = Inr (Some ''@account'')"
    by (simp add: flaky_resolver_def)
  have r: "replicate 2 x = [x, x]" for x :: "error + string option"
    by (simp add: numeral_2_eq_2)
  from failed_resolution_not_cached [of ?slf flaky_resolver _ "[]" 2] h1 h2 again
  show ?thesis
    by (simp add: r)
qed

end
